theory Spec2Isabelle
  imports Complex_Main
begin

section \<open>Nanocloud machine pool: the Machine model and the MachineService\<close>

text \<open>
  The development embeds \<^verbatim>\<open>api/models/Machine.js\<close> and
  \<^verbatim>\<open>api/services/MachineService.js\<close>. Module-level variables
  (\<^verbatim>\<open>_driver\<close>, \<^verbatim>\<open>_initializing\<close>, \<^verbatim>\<open>_awaitingMachines\<close>), the machine
  table, the configuration, the clock and the armed timers are the fields of one record
  that every operation takes and returns. What the external collaborators answer (the
  HTTP agent of a machine, the IaaS driver, the JSON parser of the language, the uuid
  generator, the SQL connection) is a second record, read only.
  A leading underscore is not part of an Isabelle name, so \<^verbatim>\<open>_createMachine\<close> is
  \<open>createMachine\<close> here, and likewise for the other private functions.
\<close>

subsection \<open>JavaScript values, errors and promises\<close>

text \<open>
  The values that \<^verbatim>\<open>JSON.parse\<close> produces, and \<^verbatim>\<open>undefined\<close>, which reading a
  missing property or index yields. An object is the list of its own properties.
\<close>

datatype js =
    JUndefined
  | JNull
  | JBool bool
  | JNum real
  | JStr string
  | JArr "js list"
  | JObj "(string \<times> js) list"

datatype error =
    DriverNotInitialized
  | DriverAlreadyInitialized
  | NoMachineFound
  | TypeError
  | SyntaxError
  | External string

text \<open>
  How a promise ends: fulfilled with a value, rejected with an error, or never settled.
\<close>

datatype 'a promise = Fulfilled 'a | Rejected error | Pending

fun then_promise :: "'a promise \<Rightarrow> ('a \<Rightarrow> 'b promise) \<Rightarrow> 'b promise" where
  "then_promise (Fulfilled x) f = f x"
| "then_promise (Rejected e) f = Rejected e"
| "then_promise Pending f = Pending"

text \<open>
  Property read \<^verbatim>\<open>v.key\<close>: a TypeError on \<^verbatim>\<open>null\<close> and \<^verbatim>\<open>undefined\<close>, the own
  property of an object, \<^verbatim>\<open>undefined\<close> for a name that primitives and arrays do not
  carry.
\<close>

fun js_prop :: "js \<Rightarrow> string \<Rightarrow> error + js" where
  "js_prop JUndefined k = Inl TypeError"
| "js_prop JNull k = Inl TypeError"
| "js_prop (JObj kvs) k = (case map_of kvs k of None \<Rightarrow> Inr JUndefined | Some v \<Rightarrow> Inr v)"
| "js_prop v k = Inr JUndefined"

text \<open>
  The decimal spelling of an index, which is the property name that \<^verbatim>\<open>v[i]\<close> reads on
  an object.
\<close>

definition digit :: "nat \<Rightarrow> char" where
  "digit d = ''0123456789'' ! d"

fun index_key :: "nat \<Rightarrow> string" where
  "index_key n = (if n < 10 then [digit n] else index_key (n div 10) @ [digit (n mod 10)])"

text \<open>
  Indexed read \<^verbatim>\<open>v[i]\<close>: the element of an array, the one-character string of a string,
  the property of an object, \<^verbatim>\<open>undefined\<close> out of range and on numbers and booleans,
  a TypeError on \<^verbatim>\<open>null\<close> and \<^verbatim>\<open>undefined\<close>.
\<close>

fun js_index :: "js \<Rightarrow> nat \<Rightarrow> error + js" where
  "js_index JUndefined i = Inl TypeError"
| "js_index JNull i = Inl TypeError"
| "js_index (JArr xs) i = (if i < length xs then Inr (xs ! i) else Inr JUndefined)"
| "js_index (JStr s) i = (if i < length s then Inr (JStr [s ! i]) else Inr JUndefined)"
| "js_index (JObj kvs) i = js_prop (JObj kvs) (index_key i)"
| "js_index v i = Inr JUndefined"

subsection \<open>The Machine model\<close>

text \<open>
  The attributes of \<^verbatim>\<open>api/models/Machine.js\<close>. \<open>endDate\<close> is in milliseconds since
  the epoch, \<open>None\<close> for the SQL NULL; \<open>user\<close> is the owning user's id, \<open>None\<close> for a
  free machine.
\<close>

record machine =
  id_machine :: string
  name :: string
  type_machine :: string
  ip :: string
  username :: string
  password :: string
  domain :: string
  endDate :: "int option"
  plazaport :: int
  user :: "string option"

record user_rec =
  id_user :: string

record session =
  id_session :: string
  username_session :: js
  state :: js
  userId :: "string option"

record url =
  protocol :: string
  hostname :: string
  port :: int
  pathname :: string

text \<open>What \<^verbatim>\<open>request.getAsync\<close> ends with: a network error, or a response with its body.\<close>

datatype http_result = NetworkError error | Response string

datatype driver = ManualDriver | AWSDriver | DummyDriver | OpenstackDriver

text \<open>
  The collaborators. \<open>JSON_parse\<close> is \<open>None\<close> where \<^verbatim>\<open>JSON.parse\<close> throws;
  \<open>uuid_v4 k\<close> is the k-th identifier drawn; \<open>driver_createMachine p\<close> is how the
  promise numbered \<open>p\<close>, returned by the driver's \<^verbatim>\<open>createMachine\<close>, ends;
  \<open>query_error\<close> is the error the SQL connection hands to the callback of
  \<^verbatim>\<open>Machine.query\<close>, if any.
\<close>

record env =
  JSON_parse :: "string \<Rightarrow> js option"
  request_get :: "url \<Rightarrow> http_result"
  uuid_v4 :: "nat \<Rightarrow> string"
  driver_initialize :: "unit promise"
  driver_createMachine :: "nat \<Rightarrow> machine promise"
  query_error :: "error option"

subsection \<open>Machine.getSessions and Machine.isSessionActive\<close>

definition plazaAddr :: "machine \<Rightarrow> url" where
  "plazaAddr this =
     \<lparr>protocol = ''http'', hostname = ip this, port = plazaport this,
      pathname = ''/sessions/'' @ username this\<rparr>"

text \<open>
  The body of \<^verbatim>\<open>body.data.forEach\<close>: one session is pushed for each element, in order;
  reading index 1 or 3 of \<^verbatim>\<open>null\<close> throws, which ends the loop and loses the sessions
  gathered so far. The second argument is the list being filled.
\<close>

fun forEach_session :: "env \<Rightarrow> machine \<Rightarrow> session list \<Rightarrow> js list \<Rightarrow> error + session list" where
  "forEach_session E this sessions [] = Inr sessions"
| "forEach_session E this sessions (x # xs) =
     (case js_index x 1 of
        Inl e \<Rightarrow> Inl e
      | Inr u \<Rightarrow>
          (case js_index x 3 of
             Inl e \<Rightarrow> Inl e
           | Inr st \<Rightarrow>
               forEach_session E this
                 (sessions @ [\<lparr>id_session = uuid_v4 E (length sessions),
                               username_session = u, state = st, userId = user this\<rparr>])
                 xs))"

text \<open>
  The \<^verbatim>\<open>then\<close> callback of \<^verbatim>\<open>getSessions\<close>, applied to the response body. Only an
  array has a callable \<^verbatim>\<open>forEach\<close> among the values \<^verbatim>\<open>JSON.parse\<close> returns, so
  \<^verbatim>\<open>body.data.forEach(...)\<close> throws a TypeError for every other \<^verbatim>\<open>data\<close>.
\<close>

definition sessions_of_body :: "env \<Rightarrow> machine \<Rightarrow> string \<Rightarrow> session list promise" where
  "sessions_of_body E this body =
     (case JSON_parse E body of
        None \<Rightarrow> Rejected SyntaxError
      | Some parsed \<Rightarrow>
          (case js_prop parsed ''data'' of
             Inl e \<Rightarrow> Rejected e
           | Inr (JArr xs) \<Rightarrow>
               (case forEach_session E this [] xs of
                  Inl e \<Rightarrow> Rejected e
                | Inr sessions \<Rightarrow> Fulfilled sessions)
           | Inr _ \<Rightarrow> Rejected TypeError))"

definition getSessions :: "env \<Rightarrow> machine \<Rightarrow> session list promise" where
  "getSessions E this =
     (case request_get E (plazaAddr this) of
        NetworkError e \<Rightarrow> Rejected e
      | Response body \<Rightarrow> sessions_of_body E this body)"

text \<open>The \<^verbatim>\<open>then\<close> callback of \<^verbatim>\<open>isSessionActive\<close>.\<close>

definition first_session_active :: "session list \<Rightarrow> bool" where
  "first_session_active sessions =
     (if length sessions \<noteq> 0
      then (if state (sessions ! 0) = JStr ''Active'' then True else False)
      else False)"

definition isSessionActive :: "env \<Rightarrow> machine \<Rightarrow> bool promise" where
  "isSessionActive E this =
     then_promise (getSessions E this) (\<lambda>sessions. Fulfilled (first_session_active sessions))"

subsection \<open>The state of the service\<close>

record config =
  iaas :: string
  machinesName :: string
  machinePoolSize :: int
  sessionDuration :: int

text \<open>
  The calls that leave the process for the driver, and the claim statement sent to the
  database, in the order they are made.
\<close>

datatype effect =
    DriverNew driver
  | DriverInitialize
  | DriverCreateMachine string
  | DriverDestroyMachine machine
  | ClaimQuery string

text \<open>
  \<open>driver_var\<close>, \<open>initializing\<close> and \<open>awaitingMachines\<close> are the module variables
  \<^verbatim>\<open>_driver\<close>, \<^verbatim>\<open>_initializing\<close> and \<^verbatim>\<open>_awaitingMachines\<close>; a creation promise is
  known by its number. \<open>Machine\<close> is the machine table, \<open>ConfigService\<close> the current
  configuration, \<open>now\<close> the clock in milliseconds, \<open>timers\<close> the callbacks armed with
  \<^verbatim>\<open>setTimeout\<close>: the instant each is due and the machine object its closure holds.
\<close>

record world =
  driver_var :: "driver option"
  initializing :: "unit promise option"
  awaitingMachines :: "nat list"
  promises :: nat
  Machine :: "machine list"
  ConfigService :: config
  now :: int
  timers :: "(int \<times> machine) list"
  effects :: "effect list"

text \<open>The table \<^verbatim>\<open>drivers\<close>; a name outside it has no constructor.\<close>

definition drivers :: "string \<Rightarrow> driver option" where
  "drivers nm =
     (if nm = ''manual'' then Some ManualDriver
      else if nm = ''aws'' then Some AWSDriver
      else if nm = ''dummy'' then Some DummyDriver
      else if nm = ''openstack'' then Some OpenstackDriver
      else None)"

subsection \<open>The repository calls\<close>

text \<open>\<^verbatim>\<open>Machine.findOne({user: id})\<close>: the first row owned by the user.\<close>

definition findOne_user :: "machine list \<Rightarrow> string \<Rightarrow> machine option" where
  "findOne_user tbl uid = List.find (\<lambda>m. user m = Some uid) tbl"

text \<open>\<^verbatim>\<open>Machine.count({where: {user: null}})\<close>.\<close>

definition count_free :: "machine list \<Rightarrow> nat" where
  "count_free tbl = length (filter (\<lambda>m. user m = None) tbl)"

text \<open>\<^verbatim>\<open>Machine.update({id: i}, {endDate: d})\<close>.\<close>

definition update_endDate :: "machine list \<Rightarrow> string \<Rightarrow> int \<Rightarrow> machine list" where
  "update_endDate tbl i d =
     map (\<lambda>m. if id_machine m = i then m\<lparr>endDate := Some d\<rparr> else m) tbl"

text \<open>\<^verbatim>\<open>Machine.destroy({id: i})\<close>.\<close>

definition destroy_id :: "machine list \<Rightarrow> string \<Rightarrow> machine list" where
  "destroy_id tbl i = filter (\<lambda>m. id_machine m \<noteq> i) tbl"

text \<open>
  The claim statement of \<^verbatim>\<open>getMachineForUser\<close>, run on its own: the sub-select takes one
  row whose user is NULL (the first of the table here; SQL leaves the choice open), the
  update sets its user, and \<^verbatim>\<open>RETURNING *\<close> gives the rows as updated. The result is the
  rows returned and the new table.
\<close>

fun claim_statement :: "machine list \<Rightarrow> string \<Rightarrow> machine list \<times> machine list" where
  "claim_statement [] uid = ([], [])"
| "claim_statement (m # tbl) uid =
     (if user m = None then ([m\<lparr>user := Some uid\<rparr>], m\<lparr>user := Some uid\<rparr> # tbl)
      else (case claim_statement tbl uid of (rows, tbl') \<Rightarrow> (rows, m # tbl')))"

subsection \<open>Creating machines and reconciling the pool\<close>

text \<open>
  \<^verbatim>\<open>_createMachine\<close>: the driver is asked for a machine named after the configuration
  and the promise it returns is pushed on \<^verbatim>\<open>_awaitingMachines\<close>. Calling a method of a
  null driver throws inside the \<^verbatim>\<open>then\<close> callback, so the promise returned is rejected
  and nothing is pushed. The result is the promise returned: the number of the driver's
  promise, or the error.
\<close>

definition createMachine :: "world \<Rightarrow> (error + nat) \<times> world" where
  "createMachine s =
     (case driver_var s of
        None \<Rightarrow> (Inl TypeError, s)
      | Some d \<Rightarrow>
          (Inr (promises s),
           s\<lparr>effects := effects s @ [DriverCreateMachine (machinesName (ConfigService s))],
             promises := promises s + 1,
             awaitingMachines := awaitingMachines s @ [promises s]\<rparr>))"

text \<open>
  The \<^verbatim>\<open>finally\<close> handler of a creation promise, run when the driver's promise settles:
  the loop runs up to the length read at its start, and an index past the end of the
  spliced array reads \<^verbatim>\<open>undefined\<close>, which is no promise.
\<close>

function splice_loop :: "nat \<Rightarrow> nat \<Rightarrow> nat \<Rightarrow> nat list \<Rightarrow> nat list" where
  "splice_loop i len machine_p aw =
     (if i < len
      then (if i < length aw \<and> aw ! i = machine_p
            then splice_loop (i + 1) len machine_p (take i aw @ drop (i + 1) aw)
            else splice_loop (i + 1) len machine_p aw)
      else aw)"
  by pat_completeness auto
termination
  by (relation "measure (\<lambda>(i, len, machine_p, aw). len - i)") auto

definition settleCreation :: "nat \<Rightarrow> world \<Rightarrow> world" where
  "settleCreation machine_p s =
     s\<lparr>awaitingMachines :=
         splice_loop 0 (length (awaitingMachines s)) machine_p (awaitingMachines s)\<rparr>"

text \<open>How the promise returned by \<^verbatim>\<open>_createMachine\<close> ends.\<close>

definition creation_fate :: "env \<Rightarrow> error + nat \<Rightarrow> machine promise" where
  "creation_fate E h = (case h of Inl e \<Rightarrow> Rejected e | Inr p \<Rightarrow> driver_createMachine E p)"

text \<open>
  \<^verbatim>\<open>Promise.all\<close>: rejected once a member is rejected, fulfilled with all the values when
  every member is fulfilled, pending otherwise. Of several rejections the earliest in
  time wins in the library; the first of the list is taken here.
\<close>

fun first_rejection :: "'a promise list \<Rightarrow> error option" where
  "first_rejection [] = None"
| "first_rejection (Rejected e # ps) = Some e"
| "first_rejection (p # ps) = first_rejection ps"

fun all_fulfilled :: "'a promise list \<Rightarrow> 'a list option" where
  "all_fulfilled [] = Some []"
| "all_fulfilled (Fulfilled x # ps) = map_option ((#) x) (all_fulfilled ps)"
| "all_fulfilled (p # ps) = None"

definition Promise_all :: "'a promise list \<Rightarrow> 'a list promise" where
  "Promise_all ps =
     (case first_rejection ps of
        Some e \<Rightarrow> Rejected e
      | None \<Rightarrow> (case all_fulfilled ps of Some xs \<Rightarrow> Fulfilled xs | None \<Rightarrow> Pending))"

text \<open>
  The loop of \<^verbatim>\<open>_updateMachinesPool\<close>: \<^verbatim>\<open>while (i > 0) { machines.push(_createMachine()); i--; }\<close>.
\<close>

function create_loop :: "int \<Rightarrow> (error + nat) list \<Rightarrow> world \<Rightarrow> (error + nat) list \<times> world" where
  "create_loop i machines s =
     (if i > 0
      then (case createMachine s of (h, s') \<Rightarrow> create_loop (i - 1) (machines @ [h]) s')
      else (machines, s))"
  by pat_completeness auto
termination
  by (relation "measure (\<lambda>(i, machines, s). nat i)") auto

text \<open>
  \<^verbatim>\<open>_updateMachinesPool\<close>. The world returned is the one in which every creation of the
  pass has been handed to the driver; the promise is how \<^verbatim>\<open>Promise.all(machines)\<close> ends.
\<close>

definition deficit :: "world \<Rightarrow> int" where
  "deficit s =
     (machinePoolSize (ConfigService s) + int (length (awaitingMachines s)))
       - int (count_free (Machine s))"

definition updateMachinesPool :: "env \<Rightarrow> world \<Rightarrow> machine list promise \<times> world" where
  "updateMachinesPool E s =
     (if driver_var s = None then (Rejected DriverNotInitialized, s)
      else (case create_loop (deficit s) [] s of
              (machines, s') \<Rightarrow> (Promise_all (map (creation_fate E) machines), s')))"

subsection \<open>initialize and getMachineForUser\<close>

text \<open>
  \<^verbatim>\<open>initialize\<close>. A name that \<^verbatim>\<open>drivers\<close> does not hold makes \<^verbatim>\<open>new\<close> throw, which
  rejects the promise kept in \<^verbatim>\<open>_initializing\<close> and leaves \<^verbatim>\<open>_driver\<close> null. After the
  driver's own \<^verbatim>\<open>initialize\<close> the pool is reconciled and the promise of that pass is
  dropped.
\<close>

definition initialize :: "env \<Rightarrow> world \<Rightarrow> unit promise \<times> world" where
  "initialize E s =
     (if driver_var s \<noteq> None then (Rejected DriverAlreadyInitialized, s)
      else (case initializing s of
              Some p \<Rightarrow> (p, s)
            | None \<Rightarrow>
                (case drivers (iaas (ConfigService s)) of
                   None \<Rightarrow> (Rejected TypeError, s\<lparr>initializing := Some (Rejected TypeError)\<rparr>)
                 | Some d \<Rightarrow>
                     (let s1 = s\<lparr>driver_var := Some d,
                                 effects := effects s @ [DriverNew d, DriverInitialize]\<rparr>
                      in (case driver_initialize E of
                            Fulfilled u \<Rightarrow>
                              (case updateMachinesPool E s1 of
                                 (r, s2) \<Rightarrow>
                                   (Fulfilled (), s2\<lparr>initializing := Some (Fulfilled ())\<rparr>))
                          | Rejected e \<Rightarrow> (Rejected e, s1\<lparr>initializing := Some (Rejected e)\<rparr>)
                          | Pending \<Rightarrow> (Pending, s1\<lparr>initializing := Some Pending\<rparr>))))))"

text \<open>
  \<^verbatim>\<open>Machine.query\<close> with the claim statement: the callback receives the connection's
  error, or the rows returned.
\<close>

definition Machine_query :: "env \<Rightarrow> world \<Rightarrow> string \<Rightarrow> (error + machine list) \<times> world" where
  "Machine_query E s uid =
     (case query_error E of
        Some e \<Rightarrow> (Inl e, s\<lparr>effects := effects s @ [ClaimQuery uid]\<rparr>)
      | None \<Rightarrow>
          (case claim_statement (Machine s) uid of
             (rows, tbl') \<Rightarrow>
               (Inr rows, s\<lparr>Machine := tbl', effects := effects s @ [ClaimQuery uid]\<rparr>)))"

text \<open>
  The \<^verbatim>\<open>finally\<close> handlers of the creation promises \<open>ps\<close>, each run when the driver
  settles its promise; the handler of a promise that the driver leaves pending does not
  run.
\<close>

definition runFinally :: "env \<Rightarrow> nat list \<Rightarrow> world \<Rightarrow> world" where
  "runFinally E ps s =
     fold (\<lambda>p s'. if driver_createMachine E p = Pending then s' else settleCreation p s') ps s"

text \<open>
  \<^verbatim>\<open>getMachineForUser\<close>. In the claim branch the promise is made with
  \<^verbatim>\<open>new Promise\<close>: it ends as \<^verbatim>\<open>resolve\<close> or \<^verbatim>\<open>reject\<close> is called and stays pending when
  neither is; \<^verbatim>\<open>resolve\<close> is called in the \<^verbatim>\<open>then\<close> of \<^verbatim>\<open>_updateMachinesPool()\<close> only,
  that is after every creation of the pass has been fulfilled and its \<^verbatim>\<open>finally\<close> handler
  has run. The creations of the pass are the promises numbered from the counter before
  the pass to the counter after it; the world returned in this branch is the one in which
  those of them that settle have settled.
\<close>

definition getMachineForUser :: "env \<Rightarrow> world \<Rightarrow> user_rec \<Rightarrow> machine promise \<times> world" where
  "getMachineForUser E s u =
     (if driver_var s = None then (Rejected DriverNotInitialized, s)
      else (case findOne_user (Machine s) (id_user u) of
              Some res \<Rightarrow> (Fulfilled res, s)
            | None \<Rightarrow>
                (case Machine_query E s (id_user u) of
                   (Inl err, s1) \<Rightarrow> (Rejected err, s1)
                 | (Inr rows, s1) \<Rightarrow>
                     (if length rows \<noteq> 0
                      then (case updateMachinesPool E s1 of
                              (Fulfilled ms, s2) \<Rightarrow>
                                (Fulfilled (rows ! 0),
                                 runFinally E [promises s1 ..< promises s2] s2)
                            | (Rejected e, s2) \<Rightarrow>
                                (Pending, runFinally E [promises s1 ..< promises s2] s2)
                            | (Pending, s2) \<Rightarrow>
                                (Pending, runFinally E [promises s1 ..< promises s2] s2))
                      else (Rejected NoMachineFound, s1)))))"

subsection \<open>Leases and the deferred check\<close>

text \<open>
  \<^verbatim>\<open>machine.endDate < now\<close> with \<^verbatim>\<open>now\<close> a Date: both sides become numbers, and
  \<^verbatim>\<open>null\<close> becomes 0.
\<close>

definition endDate_before :: "int option \<Rightarrow> int \<Rightarrow> bool" where
  "endDate_before d t = (case d of None \<Rightarrow> 0 < t | Some e \<Rightarrow> e < t)"

text \<open>
  \<^verbatim>\<open>_terminateMachine\<close>: the row is destroyed, then the driver is asked to destroy the
  machine; with a null driver the second step throws and only the row is gone.
\<close>

definition terminateMachine :: "world \<Rightarrow> machine \<Rightarrow> world" where
  "terminateMachine s machine_v =
     (let s1 = s\<lparr>Machine := destroy_id (Machine s) (id_machine machine_v)\<rparr>
      in (case driver_var s1 of
            None \<Rightarrow> s1
          | Some d \<Rightarrow> s1\<lparr>effects := effects s1 @ [DriverDestroyMachine machine_v]\<rparr>))"

text \<open>
  \<^verbatim>\<open>_shouldTerminateMachine\<close> with the callback it hangs on \<^verbatim>\<open>isSessionActive()\<close>. The
  function returns \<^verbatim>\<open>null\<close> at once; a rejection of the probe has no handler, so the
  callback does not run.
\<close>

definition shouldTerminateMachine :: "env \<Rightarrow> world \<Rightarrow> machine \<Rightarrow> js \<times> world" where
  "shouldTerminateMachine E s machine_v =
     (case isSessionActive E machine_v of
        Fulfilled isActive \<Rightarrow>
          (if \<not> isActive
           then (if endDate_before (endDate machine_v) (now s)
                 then (JNull, terminateMachine s machine_v)
                 else (JNull, s))
           else (JNull, s))
      | Rejected e \<Rightarrow> (JNull, s)
      | Pending \<Rightarrow> (JNull, s))"

text \<open>
  \<^verbatim>\<open>Machine.setEndDate\<close>: the row is updated; the object the method is called on keeps
  the \<^verbatim>\<open>endDate\<close> it was read with.
\<close>

definition setEndDate :: "world \<Rightarrow> machine \<Rightarrow> int \<Rightarrow> world" where
  "setEndDate s this duration =
     s\<lparr>Machine := update_endDate (Machine s) (id_machine this) (now s + duration * 1000)\<rparr>"

text \<open>
  \<^verbatim>\<open>increaseUsersMachineEndDate\<close>, which is \<^verbatim>\<open>sessionOpen\<close> and \<^verbatim>\<open>sessionEnded\<close>: the
  user's machine is read, its row gets the new end date, and a check of the object read
  is armed. A user without a machine makes \<^verbatim>\<open>machine.setEndDate\<close> throw.
\<close>

definition increaseUsersMachineEndDate :: "world \<Rightarrow> user_rec \<Rightarrow> unit promise \<times> world" where
  "increaseUsersMachineEndDate s u =
     (let duration = sessionDuration (ConfigService s)
      in (case findOne_user (Machine s) (id_user u) of
            None \<Rightarrow> (Rejected TypeError, s)
          | Some machine_v \<Rightarrow>
              (let s1 = setEndDate s machine_v duration
               in (Fulfilled (),
                   s1\<lparr>timers := timers s1 @ [(now s1 + duration * 1000, machine_v)]\<rparr>))))"

definition sessionOpen :: "world \<Rightarrow> user_rec \<Rightarrow> unit promise \<times> world" where
  "sessionOpen s u = increaseUsersMachineEndDate s u"

definition sessionEnded :: "world \<Rightarrow> user_rec \<Rightarrow> unit promise \<times> world" where
  "sessionEnded s u = increaseUsersMachineEndDate s u"

text \<open>
  The event loop: the clock moves forward, and the first armed timer that is due runs its
  callback and is gone.
\<close>

definition advance :: "int \<Rightarrow> world \<Rightarrow> world" where
  "advance t s = s\<lparr>now := max t (now s)\<rparr>"

fun take_due :: "int \<Rightarrow> (int \<times> machine) list \<Rightarrow> (machine \<times> (int \<times> machine) list) option" where
  "take_due t [] = None"
| "take_due t ((due, m) # ts) =
     (if due \<le> t then Some (m, ts)
      else (case take_due t ts of None \<Rightarrow> None | Some (m', ts') \<Rightarrow> Some (m', (due, m) # ts')))"

definition fire :: "env \<Rightarrow> world \<Rightarrow> world" where
  "fire E s =
     (case take_due (now s) (timers s) of
        None \<Rightarrow> s
      | Some (machine_v, ts) \<Rightarrow> snd (shouldTerminateMachine E (s\<lparr>timers := ts\<rparr>) machine_v))"

subsection \<open>Sample collaborators and worlds\<close>

text \<open>
  Concrete inputs for the closed statements below. \<open>JSON_parse_sample\<close> gives the value
  of \<^verbatim>\<open>JSON.parse\<close> on the five payloads used here and is \<open>None\<close> elsewhere; it is
  applied to these payloads and to a text that is no JSON only.
\<close>

definition payload_none :: string where
  \<open>payload_none = ''{"data":[]}''\<close>

definition payload_active :: string where
  \<open>payload_active = ''{"data":[[1,"alice","rdp-tcp#0","Active"]]}''\<close>

definition payload_second_active :: string where
  \<open>payload_second_active =
     ''{"data":[[1,"alice","console","Disconnected"],[2,"alice","rdp-tcp#0","Active"]]}''\<close>

definition payload_null_row :: string where
  \<open>payload_null_row = ''{"data":[null]}''\<close>

definition payload_empty_object :: string where
  \<open>payload_empty_object = ''{}''\<close>

definition payload_html :: string where
  \<open>payload_html = ''<html>502 Bad Gateway</html>''\<close>

definition JSON_parse_sample :: "string \<Rightarrow> js option" where
  "JSON_parse_sample body =
     (if body = payload_none then Some (JObj [(''data'', JArr [])])
      else if body = payload_active
        then Some (JObj [(''data'',
               JArr [JArr [JNum 1, JStr ''alice'', JStr ''rdp-tcp#0'', JStr ''Active'']])])
      else if body = payload_second_active
        then Some (JObj [(''data'',
               JArr [JArr [JNum 1, JStr ''alice'', JStr ''console'', JStr ''Disconnected''],
                     JArr [JNum 2, JStr ''alice'', JStr ''rdp-tcp#0'', JStr ''Active'']])])
      else if body = payload_null_row then Some (JObj [(''data'', JArr [JNull])])
      else if body = payload_empty_object then Some (JObj [])
      else None)"

definition sample_env :: "http_result \<Rightarrow> (nat \<Rightarrow> machine promise) \<Rightarrow> env" where
  "sample_env answer fate =
     \<lparr>JSON_parse = JSON_parse_sample, request_get = (\<lambda>u. answer),
      uuid_v4 = (\<lambda>k. ''session-'' @ index_key k), driver_initialize = Fulfilled (),
      driver_createMachine = fate, query_error = None\<rparr>"

definition sample_machine :: "string \<Rightarrow> string option \<Rightarrow> int option \<Rightarrow> machine" where
  "sample_machine i u d =
     \<lparr>id_machine = i, name = ''nanocloud-exec'', type_machine = ''dummy'', ip = ''10.0.0.7'',
      username = ''Administrator'', password = ''secret'', domain = ''intra.local'',
      endDate = d, plazaport = 9090, user = u\<rparr>"

definition sample_config :: "int \<Rightarrow> config" where
  "sample_config pool =
     \<lparr>iaas = ''dummy'', machinesName = ''nanocloud-exec'', machinePoolSize = pool,
      sessionDuration = 10\<rparr>"

definition sample_world :: "driver option \<Rightarrow> machine list \<Rightarrow> int \<Rightarrow> int \<Rightarrow> world" where
  "sample_world d tbl pool t =
     \<lparr>driver_var = d, initializing = None, awaitingMachines = [], promises = 0,
      Machine = tbl, ConfigService = sample_config pool, now = t, timers = [], effects = []\<rparr>"

definition alice :: user_rec where
  "alice = \<lparr>id_user = ''alice''\<rparr>"

definition bob :: user_rec where
  "bob = \<lparr>id_user = ''bob''\<rparr>"

text \<open>Payloads of a machine's agent: nobody connected, and the user connected.\<close>

definition idle_env :: env where
  "idle_env = sample_env (Response payload_none) (\<lambda>p. Pending)"

definition active_env :: env where
  "active_env = sample_env (Response payload_active) (\<lambda>p. Pending)"

text \<open>
  A lease renewed three times, with the session duration of 10 seconds: alice opens a
  session at 1000, ends it at 5000, is connected when the first check runs at 11000, and
  opens a session again at 14000. The world is the one of instant 15000, when the check
  armed at 5000 is due.
\<close>

definition renewals_world :: world where
  "renewals_world =
     (let s0 = sample_world (Some DummyDriver) [sample_machine ''m1'' (Some ''alice'') None] 0 1000;
          s1 = snd (sessionOpen s0 alice);
          s2 = snd (sessionEnded (advance 5000 s1) alice);
          s3 = fire active_env (advance 11000 s2);
          s4 = snd (sessionOpen (advance 14000 s3) alice)
      in advance 15000 s4)"


text \<open>An agent that reports a disconnected session first and an active one second.\<close>

definition second_active_env :: env where
  "second_active_env = sample_env (Response payload_second_active) (\<lambda>p. Pending)"

section \<open>Properties\<close>

subsection \<open>Auxiliary facts\<close>

declare create_loop.simps [simp del]
declare splice_loop.simps [simp del]

lemmas sample_defs = sample_env_def sample_machine_def sample_config_def sample_world_def
  JSON_parse_sample_def payload_none_def payload_active_def payload_second_active_def
  payload_null_row_def payload_empty_object_def payload_html_def alice_def bob_def
  idle_env_def active_env_def second_active_env_def

lemmas probe_defs = getSessions_def sessions_of_body_def plazaAddr_def digit_def

lemma js_index_defined:
  assumes "x \<noteq> JNull" "x \<noteq> JUndefined"
  shows "\<exists>v. js_index x i = Inr v"
proof (cases x)
  case (JObj kvs)
  then show ?thesis by (cases "map_of kvs (index_key i)") simp_all
qed (use assms in simp_all)

lemma js_index_error:
  assumes "js_index x i = Inl e"
  shows "e = TypeError"
proof (cases x)
  case (JObj kvs)
  then show ?thesis using assms by (cases "map_of kvs (index_key i)") simp_all
qed (use assms in \<open>simp_all split: if_splits\<close>)

text \<open>
  The session loop over elements none of which is \<^verbatim>\<open>null\<close>: every element adds one
  session behind those already gathered.
\<close>

lemma forEach_session_spec:
  assumes "\<forall>x\<in>set xs. x \<noteq> JNull \<and> x \<noteq> JUndefined"
  shows "\<exists>new. forEach_session E this acc xs = Inr (acc @ new) \<and> length new = length xs \<and>
     (\<forall>i<length xs. id_session (new ! i) = uuid_v4 E (length acc + i) \<and>
         js_index (xs ! i) 1 = Inr (username_session (new ! i)) \<and>
         js_index (xs ! i) 3 = Inr (state (new ! i)) \<and>
         userId (new ! i) = user this)"
  using assms
proof (induction xs arbitrary: acc)
  case Nil
  then show ?case by simp
next
  case (Cons x xs)
  from Cons.prems have x: "x \<noteq> JNull" "x \<noteq> JUndefined" by auto
  obtain u where u: "js_index x 1 = Inr u" using js_index_defined [OF x] by blast
  obtain st where st: "js_index x 3 = Inr st" using js_index_defined [OF x] by blast
  let ?r = "\<lparr>id_session = uuid_v4 E (length acc), username_session = u, state = st,
             userId = user this\<rparr>"
  from Cons.IH [of "acc @ [?r]"] Cons.prems
  obtain new where new: "forEach_session E this (acc @ [?r]) xs = Inr ((acc @ [?r]) @ new)"
     "length new = length xs"
     "\<forall>i<length xs. id_session (new ! i) = uuid_v4 E (length (acc @ [?r]) + i) \<and>
         js_index (xs ! i) 1 = Inr (username_session (new ! i)) \<and>
         js_index (xs ! i) 3 = Inr (state (new ! i)) \<and>
         userId (new ! i) = user this" by auto
  show ?case
  proof (intro exI [of _ "?r # new"] conjI allI impI)
    show "forEach_session E this acc (x # xs) = Inr (acc @ ?r # new)"
      using new(1) u st by simp
    show "length (?r # new) = length (x # xs)" using new(2) by simp
  next
    fix i assume i: "i < length (x # xs)"
    show "id_session ((?r # new) ! i) = uuid_v4 E (length acc + i)"
      using new(3) i by (cases i) auto
    show "js_index ((x # xs) ! i) 1 = Inr (username_session ((?r # new) ! i))"
      using new(3) i u by (cases i) auto
    show "js_index ((x # xs) ! i) 3 = Inr (state ((?r # new) ! i))"
      using new(3) i st by (cases i) auto
    show "userId ((?r # new) ! i) = user this"
      using new(3) i by (cases i) auto
  qed
qed

lemma forEach_session_null:
  assumes "JNull \<in> set xs"
  shows "forEach_session E this acc xs = Inl TypeError"
  using assms
proof (induction xs arbitrary: acc)
  case Nil
  then show ?case by simp
next
  case (Cons x xs)
  show ?case
  proof (cases "x = JNull")
    case True
    then show ?thesis by simp
  next
    case False
    with Cons.prems have "JNull \<in> set xs" by simp
    from Cons.IH [OF this] show ?thesis
      by (auto split: sum.splits dest: js_index_error)
  qed
qed

text \<open>
  The creation loop with a driver in place: \<open>nat i\<close> creations, numbered from the next
  free promise number, each handed to the driver and pushed on the awaiting list.
\<close>

lemma create_loop_spec:
  assumes "driver_var s \<noteq> None"
  shows "create_loop i machines s =
     (machines @ map Inr [promises s ..< promises s + nat i],
      s\<lparr>effects := effects s @
           replicate (nat i) (DriverCreateMachine (machinesName (ConfigService s))),
        promises := promises s + nat i,
        awaitingMachines := awaitingMachines s @ [promises s ..< promises s + nat i]\<rparr>)"
  using assms
proof (induction i machines s rule: create_loop.induct)
  case (1 i machines s)
  show ?case
  proof (cases "i > 0")
    case False
    then show ?thesis by (simp add: create_loop.simps [of i])
  next
    case True
    obtain d where d: "driver_var s = Some d" using "1.prems" by auto
    let ?s' = "s\<lparr>effects := effects s @ [DriverCreateMachine (machinesName (ConfigService s))],
             promises := promises s + 1,
             awaitingMachines := awaitingMachines s @ [promises s]\<rparr>"
    have cm: "createMachine s = (Inr (promises s), ?s')"
      by (simp add: createMachine_def d)
    have IH: "create_loop (i - 1) (machines @ [Inr (promises s)]) ?s' =
       ((machines @ [Inr (promises s)]) @
          map Inr [promises ?s' ..< promises ?s' + nat (i - 1)],
        ?s'\<lparr>effects := effects ?s' @
              replicate (nat (i - 1)) (DriverCreateMachine (machinesName (ConfigService ?s'))),
            promises := promises ?s' + nat (i - 1),
            awaitingMachines :=
              awaitingMachines ?s' @ [promises ?s' ..< promises ?s' + nat (i - 1)]\<rparr>)"
      using "1.IH" [OF True cm [symmetric]] d by simp
    have n: "nat i = Suc (nat (i - 1))" using True by simp
    have up: "[promises s ..< promises s + nat i] =
        promises s # [Suc (promises s) ..< Suc (promises s) + nat (i - 1)]"
      unfolding n by (simp add: upt_conv_Cons)
    show ?thesis
      unfolding create_loop.simps [of i machines s] cm up
      using True IH by (simp add: n replicate_append_same)
  qed
qed

lemma updateMachinesPool_spec:
  assumes "driver_var s \<noteq> None"
  shows "updateMachinesPool E s =
     (Promise_all (map (driver_createMachine E) [promises s ..< promises s + nat (deficit s)]),
      s\<lparr>effects := effects s @
           replicate (nat (deficit s)) (DriverCreateMachine (machinesName (ConfigService s))),
        promises := promises s + nat (deficit s),
        awaitingMachines :=
          awaitingMachines s @ [promises s ..< promises s + nat (deficit s)]\<rparr>)"
proof -
  obtain d where d: "driver_var s = Some d" using assms by auto
  have c: "creation_fate E \<circ> Inr = driver_createMachine E"
    by (rule ext) (simp add: creation_fate_def)
  show ?thesis
    unfolding updateMachinesPool_def create_loop_spec [OF assms, of "deficit s" "[]"]
    by (simp add: d c)
qed

text \<open>
  The \<^verbatim>\<open>finally\<close> handler on an awaiting list without repetition: the settled promise
  is removed and the others stay in order.
\<close>

lemma splice_loop_removes:
  assumes "distinct aw" "length aw \<le> len" "machine_p \<notin> set (take i aw)"
  shows "splice_loop i len machine_p aw = removeAll machine_p aw"
  using assms
proof (induction i len machine_p aw rule: splice_loop.induct)
  case (1 i len machine_p aw)
  show ?case
  proof (cases "i < len")
    case False
    with "1.prems" have "take i aw = aw" by simp
    with "1.prems"(3) have "machine_p \<notin> set aw" by simp
    then show ?thesis using False by (simp add: splice_loop.simps [of i])
  next
    case True
    show ?thesis
    proof (cases "i < length aw \<and> aw ! i = machine_p")
      case hit: True
      let ?aw' = "take i aw @ drop (i + 1) aw"
      have aw: "aw = take i aw @ machine_p # drop (i + 1) aw"
        using hit by (metis Suc_eq_plus1 id_take_nth_drop)
      have d: "distinct (take i aw @ machine_p # drop (i + 1) aw)"
        using "1.prems"(1) aw by simp
      then have notin: "machine_p \<notin> set ?aw'" by auto
      have d': "distinct ?aw'" using d by auto
      have l: "length ?aw' \<le> len" using "1.prems"(2) by simp
      have t: "machine_p \<notin> set (take (i + 1) ?aw')"
        using notin by (meson in_set_takeD)
      have "splice_loop (i + 1) len machine_p ?aw' = removeAll machine_p ?aw'"
        using "1.IH"(1) [OF True hit d' l t] .
      also have "\<dots> = ?aw'" using notin by simp
      also have "?aw' = removeAll machine_p aw"
        using notin by (subst (3) aw) simp
      finally show ?thesis
        using True hit by (simp add: splice_loop.simps [of i len machine_p aw])
    next
      case miss: False
      have t: "machine_p \<notin> set (take (i + 1) aw)"
      proof (cases "i < length aw")
        case True
        then have "take (i + 1) aw = take i aw @ [aw ! i]"
          by (simp add: take_Suc_conv_app_nth)
        with miss True "1.prems"(3) show ?thesis by auto
      next
        case False
        then have "take (i + 1) aw = take i aw" by simp
        with "1.prems"(3) show ?thesis by simp
      qed
      have "splice_loop (i + 1) len machine_p aw = removeAll machine_p aw"
        using "1.IH"(2) [OF True miss "1.prems"(1,2) t] .
      moreover have "splice_loop i len machine_p aw = splice_loop (i + 1) len machine_p aw"
        using True miss by (subst splice_loop.simps) (simp only: if_True if_False)
      ultimately show ?thesis by simp
    qed
  qed
qed

lemma settleCreation_removes:
  assumes "distinct (awaitingMachines s)"
  shows "awaitingMachines (settleCreation p s) = removeAll p (awaitingMachines s)"
  unfolding settleCreation_def
  using splice_loop_removes [OF assms, of "length (awaitingMachines s)" p 0] by simp

lemma find_unique:
  assumes "m \<in> set tbl" "P m" "\<forall>m'\<in>set tbl. P m' \<longrightarrow> m' = m"
  shows "List.find P tbl = Some m"
  using assms
proof (induction tbl)
  case Nil
  then show ?case by simp
next
  case (Cons a tbl)
  show ?case
  proof (cases "P a")
    case True
    with Cons.prems(3) have "a = m" by simp
    with True show ?thesis by simp
  next
    case False
    with Cons.prems(1,2) have "m \<in> set tbl" by auto
    moreover from Cons.prems(3) have "\<forall>m'\<in>set tbl. P m' \<longrightarrow> m' = m" by simp
    ultimately have "List.find P tbl = Some m" using Cons.IH Cons.prems(2) by blast
    with False show ?thesis by simp
  qed
qed

lemma find_none:
  assumes "\<forall>m\<in>set tbl. \<not> P m"
  shows "List.find P tbl = None"
  using assms by (simp add: find_None_iff)

text \<open>
  The claim statement on a table with a free machine: one row, a free one, is taken; the
  row returned is in the new table, which has one free machine less.
\<close>

lemma claim_statement_spec:
  assumes "\<exists>m\<in>set tbl. user m = None"
  shows "\<exists>m tbl'. claim_statement tbl uid = ([m\<lparr>user := Some uid\<rparr>], tbl') \<and>
           m \<in> set tbl \<and> user m = None \<and> m\<lparr>user := Some uid\<rparr> \<in> set tbl' \<and>
           count_free tbl' + 1 = count_free tbl"
  using assms
proof (induction tbl)
  case Nil
  then show ?case by simp
next
  case (Cons a tbl)
  show ?case
  proof (cases "user a = None")
    case True
    then show ?thesis
      by (intro exI [of _ a] exI [of _ "a\<lparr>user := Some uid\<rparr> # tbl"])
         (simp add: count_free_def)
  next
    case False
    with Cons.prems have "\<exists>m\<in>set tbl. user m = None" by auto
    from Cons.IH [OF this] obtain m tbl' where
      "claim_statement tbl uid = ([m\<lparr>user := Some uid\<rparr>], tbl')" "m \<in> set tbl" "user m = None"
      "m\<lparr>user := Some uid\<rparr> \<in> set tbl'" "count_free tbl' + 1 = count_free tbl"
      by blast
    then have "claim_statement tbl uid = ([m\<lparr>user := Some uid\<rparr>], tbl') \<and> m \<in> set tbl \<and>
        user m = None \<and> m\<lparr>user := Some uid\<rparr> \<in> set tbl' \<and>
        count_free tbl' + 1 = count_free tbl" by simp
    moreover from False obtain y where "user a = Some y" by auto
    ultimately show ?thesis
      by (intro exI [of _ m] exI [of _ "a # tbl'"]) (simp add: count_free_def)
  qed
qed

text \<open>
  The \<^verbatim>\<open>finally\<close> handlers of the promises \<open>ps\<close> on an awaiting list without repetition:
  those of \<open>ps\<close> that the driver settles leave the list.
\<close>

lemma settleCreation_eq:
  assumes "distinct (awaitingMachines s)"
  shows "settleCreation p s = s\<lparr>awaitingMachines := removeAll p (awaitingMachines s)\<rparr>"
  unfolding settleCreation_def
  using splice_loop_removes [OF assms, of "length (awaitingMachines s)" p 0] by simp

lemma runFinally_spec:
  assumes "distinct (awaitingMachines s)"
  shows "runFinally E ps s =
     s\<lparr>awaitingMachines :=
         filter (\<lambda>p. p \<notin> set ps \<or> driver_createMachine E p = Pending) (awaitingMachines s)\<rparr>"
  using assms
proof (induction ps arbitrary: s)
  case Nil
  then show ?case by (simp add: runFinally_def)
next
  case (Cons a ps)
  show ?case
  proof (cases "driver_createMachine E a = Pending")
    case True
    have "runFinally E (a # ps) s = runFinally E ps s"
      by (simp add: runFinally_def True)
    also have "\<dots> = s\<lparr>awaitingMachines :=
         filter (\<lambda>p. p \<notin> set ps \<or> driver_createMachine E p = Pending) (awaitingMachines s)\<rparr>"
      by (rule Cons.IH [OF Cons.prems])
    also have "filter (\<lambda>p. p \<notin> set ps \<or> driver_createMachine E p = Pending) (awaitingMachines s)
        = filter (\<lambda>p. p \<notin> set (a # ps) \<or> driver_createMachine E p = Pending) (awaitingMachines s)"
      using True by (intro filter_cong) auto
    finally show ?thesis .
  next
    case False
    let ?s' = "s\<lparr>awaitingMachines := removeAll a (awaitingMachines s)\<rparr>"
    have d: "distinct (awaitingMachines ?s')"
      using Cons.prems by (simp add: distinct_removeAll)
    have "runFinally E (a # ps) s = runFinally E ps (settleCreation a s)"
      by (simp add: runFinally_def False)
    also have "\<dots> = runFinally E ps ?s'"
      by (simp add: settleCreation_eq [OF Cons.prems])
    also have "\<dots> = ?s'\<lparr>awaitingMachines :=
         filter (\<lambda>p. p \<notin> set ps \<or> driver_createMachine E p = Pending) (awaitingMachines ?s')\<rparr>"
      by (rule Cons.IH [OF d])
    also have "filter (\<lambda>p. p \<notin> set ps \<or> driver_createMachine E p = Pending) (awaitingMachines ?s')
        = filter (\<lambda>p. p \<notin> set (a # ps) \<or> driver_createMachine E p = Pending) (awaitingMachines s)"
      using False by (simp add: removeAll_filter_not_eq) (intro filter_cong, auto)
    finally show ?thesis by simp
  qed
qed

text \<open>\<^verbatim>\<open>Promise.all\<close> of promises that are all fulfilled, and of promises none of which
  is rejected and one of which is pending.\<close>

lemma Promise_all_fulfilled:
  assumes "\<forall>p\<in>set ps. \<exists>x. p = Fulfilled x"
  shows "\<exists>xs. Promise_all ps = Fulfilled xs"
proof -
  have "first_rejection ps = None \<and> (\<exists>xs. all_fulfilled ps = Some xs)"
    using assms
  proof (induction ps)
    case Nil
    then show ?case by simp
  next
    case (Cons a ps)
    then obtain x where "a = Fulfilled x" by auto
    moreover from Cons have "first_rejection ps = None \<and> (\<exists>xs. all_fulfilled ps = Some xs)"
      by simp
    ultimately show ?case by auto
  qed
  then show ?thesis by (auto simp add: Promise_all_def)
qed

lemma Promise_all_pending:
  assumes "\<forall>p\<in>set ps. \<forall>e. p \<noteq> Rejected e" and "Pending \<in> set ps"
  shows "Promise_all ps = Pending"
proof -
  have r: "first_rejection ps = None"
    using assms(1)
  proof (induction ps)
    case Nil
    then show ?case by simp
  next
    case (Cons a ps)
    then show ?case by (cases a) simp_all
  qed
  have "all_fulfilled ps = None"
    using assms(2)
  proof (induction ps)
    case Nil
    then show ?case by simp
  next
    case (Cons a ps)
    then show ?case by (cases a) auto
  qed
  with r show ?thesis by (simp add: Promise_all_def)
qed

subsection \<open>The session probe\<close>

text \<open>
  C8, as amended. For a response whose body was received: \<open>getSessions\<close> is rejected when
  the body is not parseable JSON; when the body parses to an object whose \<open>data\<close>
  property is an array without a \<^verbatim>\<open>null\<close> element, it is fulfilled with one session per
  element, in order, whose username is index 1 and whose state is index 3 of the element;
  when the payload's \<open>data\<close> array has a \<^verbatim>\<open>null\<close> element, it is rejected too.
\<close>

theorem getSessions_payload:
  assumes "request_get E (plazaAddr this) = Response body"
  shows "(JSON_parse E body = None \<longrightarrow> getSessions E this = Rejected SyntaxError) \<and>
    (\<forall>kvs xs. JSON_parse E body = Some (JObj kvs) \<and> map_of kvs ''data'' = Some (JArr xs) \<and>
        (\<forall>x\<in>set xs. x \<noteq> JNull \<and> x \<noteq> JUndefined) \<longrightarrow>
        (\<exists>sessions. getSessions E this = Fulfilled sessions \<and>
           length sessions = length xs \<and>
           (\<forall>i<length xs.
              js_index (xs ! i) 1 = Inr (username_session (sessions ! i)) \<and>
              js_index (xs ! i) 3 = Inr (state (sessions ! i)) \<and>
              userId (sessions ! i) = user this))) \<and>
    (\<forall>kvs xs. JSON_parse E body = Some (JObj kvs) \<and> map_of kvs ''data'' = Some (JArr xs) \<and>
        JNull \<in> set xs \<longrightarrow> getSessions E this = Rejected TypeError)"
proof (intro conjI allI impI)
  assume "JSON_parse E body = None"
  then show "getSessions E this = Rejected SyntaxError"
    using assms by (simp add: getSessions_def sessions_of_body_def)
next
  fix kvs xs
  assume h: "JSON_parse E body = Some (JObj kvs) \<and> map_of kvs ''data'' = Some (JArr xs) \<and>
        (\<forall>x\<in>set xs. x \<noteq> JNull \<and> x \<noteq> JUndefined)"
  then have "\<forall>x\<in>set xs. x \<noteq> JNull \<and> x \<noteq> JUndefined" by blast
  from forEach_session_spec [OF this, of E this "[]"]
  obtain new where new: "forEach_session E this [] xs = Inr new" "length new = length xs"
    "\<forall>i<length xs. js_index (xs ! i) 1 = Inr (username_session (new ! i)) \<and>
         js_index (xs ! i) 3 = Inr (state (new ! i)) \<and> userId (new ! i) = user this"
    by auto
  have "getSessions E this = Fulfilled new"
    using assms h new(1) by (simp add: getSessions_def sessions_of_body_def)
  with new(2,3) show "\<exists>sessions. getSessions E this = Fulfilled sessions \<and>
           length sessions = length xs \<and>
           (\<forall>i<length xs.
              js_index (xs ! i) 1 = Inr (username_session (sessions ! i)) \<and>
              js_index (xs ! i) 3 = Inr (state (sessions ! i)) \<and>
              userId (sessions ! i) = user this)"
    by blast
next
  fix kvs xs
  assume h: "JSON_parse E body = Some (JObj kvs) \<and> map_of kvs ''data'' = Some (JArr xs) \<and>
        JNull \<in> set xs"
  then have "forEach_session E this [] xs = Inl TypeError"
    by (simp add: forEach_session_null)
  then show "getSessions E this = Rejected TypeError"
    using assms h by (simp add: getSessions_def sessions_of_body_def)
qed

theorem getSessions_payload_witness:
  "request_get (sample_env (Response payload_second_active) (\<lambda>p. Pending))
      (plazaAddr (sample_machine ''m1'' (Some ''alice'') None)) = Response payload_second_active \<and>
   (\<exists>sessions.
      getSessions (sample_env (Response payload_second_active) (\<lambda>p. Pending))
        (sample_machine ''m1'' (Some ''alice'') None) = Fulfilled sessions \<and>
      length sessions = 2 \<and>
      username_session (sessions ! 0) = JStr ''alice'' \<and>
      state (sessions ! 0) = JStr ''Disconnected'' \<and>
      state (sessions ! 1) = JStr ''Active'') \<and>
   getSessions (sample_env (Response payload_html) (\<lambda>p. Pending))
      (sample_machine ''m1'' (Some ''alice'') None) = Rejected SyntaxError"
proof -
  let ?E = "sample_env (Response payload_second_active) (\<lambda>p. Pending)"
  let ?F = "sample_env (Response payload_html) (\<lambda>p. Pending)"
  let ?m = "sample_machine ''m1'' (Some ''alice'') None"
  let ?xs = "[JArr [JNum 1, JStr ''alice'', JStr ''console'', JStr ''Disconnected''],
              JArr [JNum 2, JStr ''alice'', JStr ''rdp-tcp#0'', JStr ''Active'']]"
  have r: "request_get ?E (plazaAddr ?m) = Response payload_second_active"
    by (simp add: sample_env_def)
  have p: "JSON_parse ?E payload_second_active = Some (JObj [(''data'', JArr ?xs)])"
    by (simp add: sample_defs)
  have d: "map_of [(''data'', JArr ?xs)] ''data'' = Some (JArr ?xs)" by simp
  have n: "\<forall>x\<in>set ?xs. x \<noteq> JNull \<and> x \<noteq> JUndefined" by simp
  from getSessions_payload [OF r] p d n
  obtain sessions where s: "getSessions ?E ?m = Fulfilled sessions" "length sessions = length ?xs"
    "\<forall>i<length ?xs. js_index (?xs ! i) 1 = Inr (username_session (sessions ! i)) \<and>
        js_index (?xs ! i) 3 = Inr (state (sessions ! i)) \<and> userId (sessions ! i) = user ?m"
    by blast
  have "js_index (?xs ! 0) 1 = Inr (username_session (sessions ! 0))"
    "js_index (?xs ! 0) 3 = Inr (state (sessions ! 0))"
    "js_index (?xs ! 1) 3 = Inr (state (sessions ! 1))"
    using s(3) [rule_format, of 0] s(3) [rule_format, of 1] by simp_all
  then have v: "username_session (sessions ! 0) = JStr ''alice''"
    "state (sessions ! 0) = JStr ''Disconnected''" "state (sessions ! 1) = JStr ''Active''"
    by simp_all
  have r': "request_get ?F (plazaAddr ?m) = Response payload_html"
    by (simp add: sample_env_def)
  have p': "JSON_parse ?F payload_html = None"
    by (simp add: sample_defs)
  from getSessions_payload [OF r'] p'
  have "getSessions ?F ?m = Rejected SyntaxError" by blast
  with r s(1,2) v show ?thesis by auto
qed

text \<open>
  C8 as stated fails: the body \<^verbatim>\<open>{"data":[null]}\<close> is parseable JSON and its \<open>data\<close>
  array has one element, yet no session list is returned: the promise is rejected.
\<close>

theorem getSessions_payload_counterexample:
  "JSON_parse (sample_env (Response payload_null_row) (\<lambda>p. Pending)) payload_null_row
     = Some (JObj [(''data'', JArr [JNull])]) \<and>
   getSessions (sample_env (Response payload_null_row) (\<lambda>p. Pending))
     (sample_machine ''m1'' (Some ''alice'') None) = Rejected TypeError"
  by (simp add: sample_defs probe_defs)

text \<open>
  C10. When the probe returns a list of sessions, \<open>isSessionActive\<close> is true exactly when
  the list is not empty and the state of its first session is \<open>Active\<close>; a list whose
  first session is in another state is reported inactive whatever follows.
\<close>

theorem isSessionActive_first_only:
  assumes "getSessions E this = Fulfilled sessions"
  shows "isSessionActive E this =
           Fulfilled (sessions \<noteq> [] \<and> state (sessions ! 0) = JStr ''Active'') \<and>
         (\<forall>s rest. sessions = s # rest \<and> state s \<noteq> JStr ''Active'' \<longrightarrow>
            isSessionActive E this = Fulfilled False)"
  using assms by (auto simp add: isSessionActive_def first_session_active_def)

theorem isSessionActive_first_only_witness:
  "getSessions (sample_env (Response payload_second_active) (\<lambda>p. Pending))
      (sample_machine ''m1'' (Some ''alice'') None) =
     Fulfilled
       [\<lparr>id_session = ''session-0'', username_session = JStr ''alice'',
          state = JStr ''Disconnected'', userId = Some ''alice''\<rparr>,
        \<lparr>id_session = ''session-1'', username_session = JStr ''alice'',
          state = JStr ''Active'', userId = Some ''alice''\<rparr>] \<and>
   isSessionActive (sample_env (Response payload_second_active) (\<lambda>p. Pending))
      (sample_machine ''m1'' (Some ''alice'') None) = Fulfilled False"
proof -
  let ?E = "sample_env (Response payload_second_active) (\<lambda>p. Pending)"
  let ?m = "sample_machine ''m1'' (Some ''alice'') None"
  have g: "getSessions ?E ?m =
     Fulfilled
       [\<lparr>id_session = ''session-0'', username_session = JStr ''alice'',
          state = JStr ''Disconnected'', userId = Some ''alice''\<rparr>,
        \<lparr>id_session = ''session-1'', username_session = JStr ''alice'',
          state = JStr ''Active'', userId = Some ''alice''\<rparr>]"
    by (simp add: sample_defs probe_defs)
  from isSessionActive_first_only [OF g] g show ?thesis by simp
qed

subsection \<open>The deferred check\<close>

lemma idle_probe: "isSessionActive idle_env m = Fulfilled False"
  by (simp add: isSessionActive_def first_session_active_def sample_defs probe_defs)

lemma active_probe: "isSessionActive active_env m = Fulfilled True"
  by (simp add: isSessionActive_def first_session_active_def sample_defs probe_defs)

text \<open>
  C9. When the probe fails, that is when \<open>getSessions\<close> is rejected, the deferred check
  returns \<^verbatim>\<open>null\<close> and leaves the world as it was: the machine's row stays in the table
  and the driver is not asked to destroy anything. The rejection reaches no caller.
\<close>

theorem probe_failure_no_destruction:
  assumes "getSessions E machine_v = Rejected e"
  shows "shouldTerminateMachine E s machine_v = (JNull, s) \<and>
         Machine (snd (shouldTerminateMachine E s machine_v)) = Machine s \<and>
         effects (snd (shouldTerminateMachine E s machine_v)) = effects s"
  using assms by (simp add: shouldTerminateMachine_def isSessionActive_def)

theorem probe_failure_no_destruction_witness:
  "getSessions (sample_env (NetworkError (External ''ECONNREFUSED'')) (\<lambda>p. Pending))
      (sample_machine ''m1'' (Some ''alice'') (Some 11000)) = Rejected (External ''ECONNREFUSED'') \<and>
   shouldTerminateMachine (sample_env (NetworkError (External ''ECONNREFUSED'')) (\<lambda>p. Pending))
      (sample_world (Some DummyDriver) [sample_machine ''m1'' (Some ''alice'') (Some 11000)] 0 20000)
      (sample_machine ''m1'' (Some ''alice'') (Some 11000)) =
     (JNull,
      sample_world (Some DummyDriver) [sample_machine ''m1'' (Some ''alice'') (Some 11000)] 0 20000) \<and>
   getSessions (sample_env (Response payload_html) (\<lambda>p. Pending))
      (sample_machine ''m1'' (Some ''alice'') (Some 11000)) = Rejected SyntaxError \<and>
   shouldTerminateMachine (sample_env (Response payload_html) (\<lambda>p. Pending))
      (sample_world (Some DummyDriver) [sample_machine ''m1'' (Some ''alice'') (Some 11000)] 0 20000)
      (sample_machine ''m1'' (Some ''alice'') (Some 11000)) =
     (JNull,
      sample_world (Some DummyDriver) [sample_machine ''m1'' (Some ''alice'') (Some 11000)] 0 20000)"
proof -
  let ?m = "sample_machine ''m1'' (Some ''alice'') (Some 11000)"
  let ?s = "sample_world (Some DummyDriver) [?m] 0 20000"
  let ?E = "sample_env (NetworkError (External ''ECONNREFUSED'')) (\<lambda>p. Pending)"
  let ?F = "sample_env (Response payload_html) (\<lambda>p. Pending)"
  have g: "getSessions ?E ?m = Rejected (External ''ECONNREFUSED'')"
    by (simp add: getSessions_def sample_env_def)
  have h: "getSessions ?F ?m = Rejected SyntaxError"
    by (simp add: sample_defs probe_defs)
  from probe_failure_no_destruction [OF g, of ?s] probe_failure_no_destruction [OF h, of ?s] g h
  show ?thesis by simp
qed





text \<open>
  C2 does not hold of the code. The check armed by a renewal holds the machine object that
  was read before that renewal wrote the new end date, and it compares the end date of
  that object with the clock; the row is not read again. In the world of the three
  renewals the stored end date is 24000 when the check armed at 5000 runs at 15000, with
  nobody connected: the object it holds says 11000, and the machine is destroyed.
\<close>

theorem stale_endDate_destroys_renewed_machine:
  "now renewals_world = 15000 \<and>
   Machine renewals_world = [sample_machine ''m1'' (Some ''alice'') (Some 24000)] \<and>
   timers renewals_world =
     [(15000, sample_machine ''m1'' (Some ''alice'') (Some 11000)),
      (24000, sample_machine ''m1'' (Some ''alice'') (Some 15000))] \<and>
   Machine (fire idle_env renewals_world) = [] \<and>
   effects (fire idle_env renewals_world) =
     [DriverDestroyMachine (sample_machine ''m1'' (Some ''alice'') (Some 11000))]"
proof -
  let ?m = "\<lambda>d. sample_machine ''m1'' (Some ''alice'') d"
  let ?s0 = "sample_world (Some DummyDriver) [?m None] 0 1000"
  have find: "\<And>d. findOne_user [?m d] ''alice'' = Some (?m d)"
    by (simp add: findOne_user_def sample_machine_def)
  have upd: "\<And>d t. update_endDate [?m d] ''m1'' t = [?m (Some t)]"
    by (simp add: update_endDate_def sample_machine_def)
  have idm: "\<And>d. id_machine (?m d) = ''m1''" by (simp add: sample_machine_def)
  have s1: "snd (sessionOpen ?s0 alice) =
      ?s0\<lparr>Machine := [?m (Some 11000)], timers := [(11000, ?m None)]\<rparr>"
    by (simp add: sessionOpen_def increaseUsersMachineEndDate_def setEndDate_def alice_def
        sample_world_def sample_config_def find upd idm)
  let ?s1 = "?s0\<lparr>Machine := [?m (Some 11000)], timers := [(11000, ?m None)]\<rparr>"
  have s2: "snd (sessionEnded (advance 5000 ?s1) alice) =
      ?s0\<lparr>Machine := [?m (Some 15000)], now := 5000,
          timers := [(11000, ?m None), (15000, ?m (Some 11000))]\<rparr>"
    by (simp add: sessionEnded_def increaseUsersMachineEndDate_def setEndDate_def alice_def
        advance_def sample_world_def sample_config_def find upd idm)
  let ?s2 = "?s0\<lparr>Machine := [?m (Some 15000)], now := 5000,
          timers := [(11000, ?m None), (15000, ?m (Some 11000))]\<rparr>"
  have s3: "fire active_env (advance 11000 ?s2) =
      ?s0\<lparr>Machine := [?m (Some 15000)], now := 11000, timers := [(15000, ?m (Some 11000))]\<rparr>"
    by (simp add: fire_def advance_def shouldTerminateMachine_def active_probe sample_world_def)
  let ?s3 = "?s0\<lparr>Machine := [?m (Some 15000)], now := 11000,
          timers := [(15000, ?m (Some 11000))]\<rparr>"
  have s4: "snd (sessionOpen (advance 14000 ?s3) alice) =
      ?s0\<lparr>Machine := [?m (Some 24000)], now := 14000,
          timers := [(15000, ?m (Some 11000)), (24000, ?m (Some 15000))]\<rparr>"
    by (simp add: sessionOpen_def increaseUsersMachineEndDate_def setEndDate_def alice_def
        advance_def sample_world_def sample_config_def find upd idm)
  have w: "renewals_world =
      ?s0\<lparr>Machine := [?m (Some 24000)], now := 15000,
          timers := [(15000, ?m (Some 11000)), (24000, ?m (Some 15000))]\<rparr>"
    unfolding renewals_world_def Let_def s1 s2 s3 s4
    by (simp add: advance_def sample_world_def)
  have d: "destroy_id [?m (Some 24000)] ''m1'' = []"
    by (simp add: destroy_id_def sample_machine_def)
  have f: "fire idle_env renewals_world =
      ?s0\<lparr>Machine := [], now := 15000, timers := [(24000, ?m (Some 15000))],
          effects := [DriverDestroyMachine (?m (Some 11000))]\<rparr>"
    unfolding w
    by (simp add: fire_def shouldTerminateMachine_def idle_probe endDate_before_def
        terminateMachine_def sample_world_def d idm)
       (simp add: sample_machine_def)
  show ?thesis unfolding f unfolding w by (simp add: sample_world_def)
qed

subsection \<open>The pool reconciler\<close>

text \<open>
  C5, as amended. With the driver in place, one reconcile pass hands exactly
  max(0, machinePoolSize + in-flight count - free count) creations to the driver, pushes
  each on the awaiting list, and leaves the machine table as it was, so that nothing is
  removed or destroyed; when machinePoolSize is 0 and the free count is at least the
  in-flight count, no creation is dispatched.
\<close>

theorem reconcile_dispatches_deficit:
  assumes "driver_var s \<noteq> None"
    and "n = nat (max 0 (machinePoolSize (ConfigService s)
                 + int (length (awaitingMachines s)) - int (count_free (Machine s))))"
  shows "effects (snd (updateMachinesPool E s)) =
           effects s @ replicate n (DriverCreateMachine (machinesName (ConfigService s))) \<and>
         awaitingMachines (snd (updateMachinesPool E s)) =
           awaitingMachines s @ [promises s ..< promises s + n] \<and>
         Machine (snd (updateMachinesPool E s)) = Machine s \<and>
         (machinePoolSize (ConfigService s) = 0 \<and>
          length (awaitingMachines s) \<le> count_free (Machine s) \<longrightarrow>
            effects (snd (updateMachinesPool E s)) = effects s \<and>
            awaitingMachines (snd (updateMachinesPool E s)) = awaitingMachines s)"
proof -
  have n: "nat (deficit s) = n"
    unfolding assms(2) deficit_def by simp
  have z: "machinePoolSize (ConfigService s) = 0 \<and>
          length (awaitingMachines s) \<le> count_free (Machine s) \<Longrightarrow> n = 0"
    unfolding assms(2) by simp
  show ?thesis
    unfolding updateMachinesPool_spec [OF assms(1)] n
    using z by auto
qed

theorem reconcile_dispatches_deficit_witness:
  "effects (snd (updateMachinesPool idle_env
      (sample_world (Some DummyDriver)
         [sample_machine ''m1'' None None, sample_machine ''m2'' None None] 5 0))) =
     [DriverCreateMachine ''nanocloud-exec'', DriverCreateMachine ''nanocloud-exec'',
      DriverCreateMachine ''nanocloud-exec''] \<and>
   awaitingMachines (snd (updateMachinesPool idle_env
      (sample_world (Some DummyDriver)
         [sample_machine ''m1'' None None, sample_machine ''m2'' None None] 5 0))) = [0, 1, 2] \<and>
   effects (snd (updateMachinesPool idle_env
      (sample_world (Some DummyDriver) [sample_machine ''m1'' None None] 0 0))) = [] \<and>
   Machine (snd (updateMachinesPool idle_env
      (sample_world (Some DummyDriver) [sample_machine ''m1'' None None] 0 0))) =
     [sample_machine ''m1'' None None]"
proof -
  let ?s = "sample_world (Some DummyDriver)
         [sample_machine ''m1'' None None, sample_machine ''m2'' None None] 5 0"
  let ?t = "sample_world (Some DummyDriver) [sample_machine ''m1'' None None] 0 0"
  have d: "driver_var ?s \<noteq> None" "driver_var ?t \<noteq> None"
    by (simp_all add: sample_world_def)
  have n: "3 = nat (max 0 (machinePoolSize (ConfigService ?s)
                 + int (length (awaitingMachines ?s)) - int (count_free (Machine ?s))))"
    by (simp add: sample_world_def sample_config_def sample_machine_def count_free_def)
  have k: "0 = nat (max 0 (machinePoolSize (ConfigService ?t)
                 + int (length (awaitingMachines ?t)) - int (count_free (Machine ?t))))"
    by (simp add: sample_world_def sample_config_def sample_machine_def count_free_def)
  have z: "machinePoolSize (ConfigService ?t) = 0 \<and>
          length (awaitingMachines ?t) \<le> count_free (Machine ?t)"
    by (simp add: sample_world_def sample_config_def sample_machine_def count_free_def)
  have v: "effects ?s = []" "awaitingMachines ?s = []" "promises ?s = 0"
    "machinesName (ConfigService ?s) = ''nanocloud-exec''"
    "effects ?t = []" "Machine ?t = [sample_machine ''m1'' None None]"
    by (simp_all add: sample_world_def sample_config_def)
  have u: "[0 ..< 0 + 3] = [0, 1, 2::nat]" by (simp add: upt_rec)
  have r: "replicate 3 (DriverCreateMachine ''nanocloud-exec'') =
     [DriverCreateMachine ''nanocloud-exec'', DriverCreateMachine ''nanocloud-exec'',
      DriverCreateMachine ''nanocloud-exec'']" by (simp add: numeral_3_eq_3)
  from reconcile_dispatches_deficit [OF d(1) n, of idle_env]
  have "effects (snd (updateMachinesPool idle_env ?s)) =
      [DriverCreateMachine ''nanocloud-exec'', DriverCreateMachine ''nanocloud-exec'',
      DriverCreateMachine ''nanocloud-exec'']"
    "awaitingMachines (snd (updateMachinesPool idle_env ?s)) = [0, 1, 2]"
    unfolding v u r by simp_all
  moreover from reconcile_dispatches_deficit [OF d(2) k, of idle_env] z
  have "effects (snd (updateMachinesPool idle_env ?t)) = []"
    "Machine (snd (updateMachinesPool idle_env ?t)) = [sample_machine ''m1'' None None]"
    unfolding v by simp_all
  ultimately show ?thesis by simp
qed

text \<open>
  C5 as stated fails in its last clause: with machinePoolSize 0, one free machine and two
  creations in flight, the pass dispatches one creation.
\<close>

theorem reconcile_dispatches_deficit_counterexample:
  "machinePoolSize (ConfigService
      ((sample_world (Some DummyDriver) [sample_machine ''m1'' None None] 0 0)
         \<lparr>awaitingMachines := [0, 1], promises := 2\<rparr>)) = 0 \<and>
   count_free (Machine
      ((sample_world (Some DummyDriver) [sample_machine ''m1'' None None] 0 0)
         \<lparr>awaitingMachines := [0, 1], promises := 2\<rparr>)) = 1 \<and>
   effects (snd (updateMachinesPool idle_env
      ((sample_world (Some DummyDriver) [sample_machine ''m1'' None None] 0 0)
         \<lparr>awaitingMachines := [0, 1], promises := 2\<rparr>))) =
     [DriverCreateMachine ''nanocloud-exec''] \<and>
   awaitingMachines (snd (updateMachinesPool idle_env
      ((sample_world (Some DummyDriver) [sample_machine ''m1'' None None] 0 0)
         \<lparr>awaitingMachines := [0, 1], promises := 2\<rparr>))) = [0, 1, 2]"
proof -
  let ?s = "(sample_world (Some DummyDriver) [sample_machine ''m1'' None None] 0 0)
         \<lparr>awaitingMachines := [0, 1], promises := 2\<rparr>"
  have d: "driver_var ?s \<noteq> None" by (simp add: sample_world_def)
  have c: "count_free (Machine ?s) = 1"
    by (simp add: sample_world_def sample_machine_def count_free_def)
  have p: "machinePoolSize (ConfigService ?s) = 0"
    by (simp add: sample_world_def sample_config_def)
  have n: "nat (deficit ?s) = 1"
    unfolding deficit_def c p by (simp add: sample_world_def)
  have v: "effects ?s = []" "awaitingMachines ?s = [0, 1]" "promises ?s = 2"
    "machinesName (ConfigService ?s) = ''nanocloud-exec''"
    by (simp_all add: sample_world_def sample_config_def)
  have "snd (updateMachinesPool idle_env ?s) =
      ?s\<lparr>effects := [DriverCreateMachine ''nanocloud-exec''], promises := 3,
          awaitingMachines := [0, 1, 2]\<rparr>"
    unfolding updateMachinesPool_spec [OF d] n v by simp
  then show ?thesis using c p by simp
qed

subsection \<open>getMachineForUser and initialize\<close>

text \<open>
  C4, as amended. For a user without a machine, a table with a free machine, the driver
  in place and a working connection, \<open>getMachineForUser\<close> writes the claim to the table
  and runs a reconcile pass on the claimed table: the pass hands its creations to the
  driver, and those that the driver has not settled are on the awaiting list. The caller's
  promise follows that pass: it is fulfilled with the claimed machine once every creation
  of the pass is fulfilled, and it is pending as long as none is rejected and one is
  pending. The awaiting list is taken without repetition and holds promises made earlier.
\<close>

theorem claim_resolves_after_reconcile:
  assumes "driver_var s \<noteq> None"
    and "\<forall>m\<in>set (Machine s). user m \<noteq> Some (id_user u)"
    and "\<exists>m\<in>set (Machine s). user m = None"
    and "query_error E = None"
    and "distinct (awaitingMachines s)"
    and "\<forall>p\<in>set (awaitingMachines s). p < promises s"
    and "n = nat (max 0 (machinePoolSize (ConfigService s)
                 + int (length (awaitingMachines s)) - (int (count_free (Machine s)) - 1)))"
  shows "\<exists>m\<in>set (Machine s). user m = None \<and>
     Machine (snd (getMachineForUser E s u)) = snd (claim_statement (Machine s) (id_user u)) \<and>
     m\<lparr>user := Some (id_user u)\<rparr> \<in> set (Machine (snd (getMachineForUser E s u))) \<and>
     effects (snd (getMachineForUser E s u)) =
       effects s @ ClaimQuery (id_user u) #
         replicate n (DriverCreateMachine (machinesName (ConfigService s))) \<and>
     awaitingMachines (snd (getMachineForUser E s u)) =
       awaitingMachines s @
         filter (\<lambda>p. driver_createMachine E p = Pending) [promises s ..< promises s + n] \<and>
     ((\<forall>p\<in>set [promises s ..< promises s + n]. \<exists>x. driver_createMachine E p = Fulfilled x) \<longrightarrow>
        fst (getMachineForUser E s u) = Fulfilled (m\<lparr>user := Some (id_user u)\<rparr>) \<and>
        awaitingMachines (snd (getMachineForUser E s u)) = awaitingMachines s) \<and>
     ((\<forall>p\<in>set [promises s ..< promises s + n]. \<forall>e. driver_createMachine E p \<noteq> Rejected e) \<and>
      (\<exists>p\<in>set [promises s ..< promises s + n]. driver_createMachine E p = Pending) \<longrightarrow>
        fst (getMachineForUser E s u) = Pending)"
proof -
  let ?uid = "id_user u"
  let ?new = "[promises s ..< promises s + n]"
  let ?fate = "driver_createMachine E"
  obtain d where d: "driver_var s = Some d" using assms(1) by auto
  have f: "findOne_user (Machine s) ?uid = None"
    unfolding findOne_user_def using assms(2) by (intro find_none) simp
  from claim_statement_spec [OF assms(3), of ?uid]
  obtain m tbl' where c: "claim_statement (Machine s) ?uid = ([m\<lparr>user := Some ?uid\<rparr>], tbl')"
    and m: "m \<in> set (Machine s)" "user m = None"
    and w: "m\<lparr>user := Some ?uid\<rparr> \<in> set tbl'"
    and k: "count_free tbl' + 1 = count_free (Machine s)"
    by blast
  let ?row = "m\<lparr>user := Some ?uid\<rparr>"
  let ?s1 = "s\<lparr>Machine := tbl', effects := effects s @ [ClaimQuery ?uid]\<rparr>"
  have q: "Machine_query E s ?uid = (Inr [?row], ?s1)"
    by (simp add: Machine_query_def assms(4) c)
  have d1: "driver_var ?s1 \<noteq> None" by (simp add: d)
  have "deficit ?s1 = machinePoolSize (ConfigService s)
      + int (length (awaitingMachines s)) - (int (count_free (Machine s)) - 1)"
    unfolding deficit_def using k by simp
  then have n: "nat (deficit ?s1) = n"
    unfolding assms(7) by simp
  let ?s2 = "?s1\<lparr>effects := effects ?s1 @
                 replicate n (DriverCreateMachine (machinesName (ConfigService ?s1))),
               promises := promises ?s1 + n,
               awaitingMachines := awaitingMachines ?s1 @ [promises ?s1 ..< promises ?s1 + n]\<rparr>"
  have p: "updateMachinesPool E ?s1 = (Promise_all (map ?fate ?new), ?s2)"
    using updateMachinesPool_spec [OF d1, of E] unfolding n by simp
  have range: "[promises ?s1 ..< promises ?s2] = ?new" by simp
  have dist: "distinct (awaitingMachines ?s2)"
    using assms(5,6) by auto
  have keep: "filter (\<lambda>p. p \<notin> set ?new \<or> ?fate p = Pending) (awaitingMachines s) =
      awaitingMachines s"
    using assms(6) by (intro filter_True) auto
  have drop: "filter (\<lambda>p. p \<notin> set ?new \<or> ?fate p = Pending) ?new =
      filter (\<lambda>p. ?fate p = Pending) ?new"
    by (intro filter_cong) auto
  let ?s3 = "?s2\<lparr>awaitingMachines := awaitingMachines s @ filter (\<lambda>p. ?fate p = Pending) ?new\<rparr>"
  have fin: "runFinally E ?new ?s2 = ?s3"
    unfolding runFinally_spec [OF dist, of E ?new] using keep drop by simp
  have "snd (getMachineForUser E s u) = runFinally E ?new ?s2"
    unfolding getMachineForUser_def
    by (simp add: d f q p split: promise.splits)
  then have snd_g: "snd (getMachineForUser E s u) = ?s3"
    unfolding fin .
  have fst_g: "fst (getMachineForUser E s u) =
      (case Promise_all (map ?fate ?new) of
         Fulfilled ms \<Rightarrow> Fulfilled ?row | Rejected e \<Rightarrow> Pending | Pending \<Rightarrow> Pending)"
    unfolding getMachineForUser_def
    by (simp add: d f q p split: promise.splits)
  have tbl: "snd (claim_statement (Machine s) ?uid) = tbl'" by (simp add: c)
  have c1: "Machine (snd (getMachineForUser E s u)) = snd (claim_statement (Machine s) ?uid)"
    unfolding snd_g tbl by simp
  have c2: "?row \<in> set (Machine (snd (getMachineForUser E s u)))"
    unfolding snd_g using w by simp
  have c3: "effects (snd (getMachineForUser E s u)) =
       effects s @ ClaimQuery ?uid #
         replicate n (DriverCreateMachine (machinesName (ConfigService s)))"
    unfolding snd_g by simp
  have c4: "awaitingMachines (snd (getMachineForUser E s u)) =
       awaitingMachines s @ filter (\<lambda>p. ?fate p = Pending) ?new"
    unfolding snd_g by simp
  have c5: "(\<forall>p\<in>set ?new. \<exists>x. ?fate p = Fulfilled x) \<longrightarrow>
        fst (getMachineForUser E s u) = Fulfilled ?row \<and>
        awaitingMachines (snd (getMachineForUser E s u)) = awaitingMachines s"
  proof
    assume a: "\<forall>p\<in>set ?new. \<exists>x. ?fate p = Fulfilled x"
    then have "\<forall>p\<in>set (map ?fate ?new). \<exists>x. p = Fulfilled x" by auto
    from Promise_all_fulfilled [OF this]
    obtain xs where "Promise_all (map ?fate ?new) = Fulfilled xs" by blast
    then have "fst (getMachineForUser E s u) = Fulfilled ?row"
      unfolding fst_g by simp
    moreover have "filter (\<lambda>p. ?fate p = Pending) ?new = []"
      unfolding filter_empty_conv using a by fastforce
    then have "awaitingMachines (snd (getMachineForUser E s u)) = awaitingMachines s"
      unfolding c4 by simp
    ultimately show "fst (getMachineForUser E s u) = Fulfilled ?row \<and>
        awaitingMachines (snd (getMachineForUser E s u)) = awaitingMachines s" by simp
  qed
  have c6: "(\<forall>p\<in>set ?new. \<forall>e. ?fate p \<noteq> Rejected e) \<and> (\<exists>p\<in>set ?new. ?fate p = Pending) \<longrightarrow>
        fst (getMachineForUser E s u) = Pending"
  proof
    assume a: "(\<forall>p\<in>set ?new. \<forall>e. ?fate p \<noteq> Rejected e) \<and> (\<exists>p\<in>set ?new. ?fate p = Pending)"
    then have "\<forall>p\<in>set (map ?fate ?new). \<forall>e. p \<noteq> Rejected e" by auto
    moreover from a have "Pending \<in> set (map ?fate ?new)" by force
    ultimately have "Promise_all (map ?fate ?new) = Pending"
      by (rule Promise_all_pending)
    then show "fst (getMachineForUser E s u) = Pending"
      unfolding fst_g by simp
  qed
  from m c1 c2 c3 c4 c5 c6 show ?thesis by blast
qed

theorem claim_resolves_after_reconcile_witness:
  "fst (getMachineForUser
          (sample_env (Response payload_none) (\<lambda>p. Fulfilled (sample_machine ''m2'' None None)))
          ((sample_world (Some DummyDriver) [sample_machine ''m1'' None None] 0 0)
             \<lparr>awaitingMachines := [0], promises := 1\<rparr>) bob) =
     Fulfilled (sample_machine ''m1'' (Some ''bob'') None) \<and>
   Machine (snd (getMachineForUser
          (sample_env (Response payload_none) (\<lambda>p. Fulfilled (sample_machine ''m2'' None None)))
          ((sample_world (Some DummyDriver) [sample_machine ''m1'' None None] 0 0)
             \<lparr>awaitingMachines := [0], promises := 1\<rparr>) bob)) =
     [sample_machine ''m1'' (Some ''bob'') None] \<and>
   effects (snd (getMachineForUser
          (sample_env (Response payload_none) (\<lambda>p. Fulfilled (sample_machine ''m2'' None None)))
          ((sample_world (Some DummyDriver) [sample_machine ''m1'' None None] 0 0)
             \<lparr>awaitingMachines := [0], promises := 1\<rparr>) bob)) =
     [ClaimQuery ''bob'', DriverCreateMachine ''nanocloud-exec''] \<and>
   awaitingMachines (snd (getMachineForUser
          (sample_env (Response payload_none) (\<lambda>p. Fulfilled (sample_machine ''m2'' None None)))
          ((sample_world (Some DummyDriver) [sample_machine ''m1'' None None] 0 0)
             \<lparr>awaitingMachines := [0], promises := 1\<rparr>) bob)) = [0] \<and>
   fst (getMachineForUser idle_env
          ((sample_world (Some DummyDriver) [sample_machine ''m1'' None None] 0 0)
             \<lparr>awaitingMachines := [0], promises := 1\<rparr>) bob) = Pending \<and>
   awaitingMachines (snd (getMachineForUser idle_env
          ((sample_world (Some DummyDriver) [sample_machine ''m1'' None None] 0 0)
             \<lparr>awaitingMachines := [0], promises := 1\<rparr>) bob)) = [0, 1]"
proof -
  let ?E = "sample_env (Response payload_none) (\<lambda>p. Fulfilled (sample_machine ''m2'' None None))"
  let ?m1 = "sample_machine ''m1'' None None"
  let ?row = "sample_machine ''m1'' (Some ''bob'') None"
  let ?s = "(sample_world (Some DummyDriver) [?m1] 0 0)\<lparr>awaitingMachines := [0], promises := 1\<rparr>"
  have h: "driver_var ?s \<noteq> None" "\<forall>m\<in>set (Machine ?s). user m \<noteq> Some (id_user bob)"
    "\<exists>m\<in>set (Machine ?s). user m = None"
    by (simp_all add: sample_world_def sample_machine_def)
  have e: "query_error ?E = None" "query_error idle_env = None"
    by (simp_all add: sample_env_def idle_env_def)
  have a: "distinct (awaitingMachines ?s)" "\<forall>p\<in>set (awaitingMachines ?s). p < promises ?s"
    by (simp_all add: sample_world_def)
  have n: "1 = nat (max 0 (machinePoolSize (ConfigService ?s)
                 + int (length (awaitingMachines ?s)) - (int (count_free (Machine ?s)) - 1)))"
    by (simp add: sample_world_def sample_config_def sample_machine_def count_free_def)
  have v: "effects ?s = []" "awaitingMachines ?s = [0]" "promises ?s = 1"
    "machinesName (ConfigService ?s) = ''nanocloud-exec''" "id_user bob = ''bob''"
    by (simp_all add: sample_world_def sample_config_def bob_def)
  have u: "[1 ..< 1 + 1] = [1::nat]" by simp
  have r: "replicate 1 (DriverCreateMachine ''nanocloud-exec'') =
      [DriverCreateMachine ''nanocloud-exec'']" by simp
  have t: "snd (claim_statement (Machine ?s) ''bob'') = [?row]"
    by (simp add: sample_world_def sample_machine_def)
  have fates: "\<forall>p\<in>set [1::nat]. \<exists>x. driver_createMachine ?E p = Fulfilled x"
    "(\<forall>p\<in>set [1::nat]. \<forall>e. driver_createMachine idle_env p \<noteq> Rejected e) \<and>
     (\<exists>p\<in>set [1::nat]. driver_createMachine idle_env p = Pending)"
    "filter (\<lambda>p. driver_createMachine idle_env p = Pending) [1::nat] = [1]"
    by (simp_all add: sample_env_def idle_env_def)
  from claim_resolves_after_reconcile [OF h e(1) a n]
  obtain m where m: "m \<in> set (Machine ?s)"
    and c1: "Machine (snd (getMachineForUser ?E ?s bob)) = [?row]"
    and c3: "effects (snd (getMachineForUser ?E ?s bob)) =
        [ClaimQuery ''bob'', DriverCreateMachine ''nanocloud-exec'']"
    and c5: "fst (getMachineForUser ?E ?s bob) = Fulfilled (m\<lparr>user := Some ''bob''\<rparr>) \<and>
        awaitingMachines (snd (getMachineForUser ?E ?s bob)) = [0]"
    unfolding v u r t using fates(1) by auto
  from m have "m = ?m1" by (simp add: sample_world_def)
  then have "m\<lparr>user := Some ''bob''\<rparr> = ?row" by (simp add: sample_machine_def)
  with c5 have c5': "fst (getMachineForUser ?E ?s bob) = Fulfilled ?row"
    "awaitingMachines (snd (getMachineForUser ?E ?s bob)) = [0]" by simp_all
  from claim_resolves_after_reconcile [OF h e(2) a n]
  have "fst (getMachineForUser idle_env ?s bob) = Pending"
    "awaitingMachines (snd (getMachineForUser idle_env ?s bob)) = [0, 1]"
    unfolding v u r t using fates(2,3) by auto
  with c1 c3 c5' show ?thesis by simp
qed

text \<open>
  C4 as stated fails: the claim succeeds, the pass that follows dispatches one creation,
  and while the driver has not settled it the caller's promise is not settled either,
  although the machine is already assigned to the user in the table.
\<close>

theorem claim_resolves_after_reconcile_counterexample:
  "fst (getMachineForUser idle_env
          (sample_world (Some DummyDriver) [sample_machine ''m1'' None None] 1 0) bob) = Pending \<and>
   Machine (snd (getMachineForUser idle_env
          (sample_world (Some DummyDriver) [sample_machine ''m1'' None None] 1 0) bob)) =
     [sample_machine ''m1'' (Some ''bob'') None] \<and>
   effects (snd (getMachineForUser idle_env
          (sample_world (Some DummyDriver) [sample_machine ''m1'' None None] 1 0) bob)) =
     [ClaimQuery ''bob'', DriverCreateMachine ''nanocloud-exec''] \<and>
   awaitingMachines (snd (getMachineForUser idle_env
          (sample_world (Some DummyDriver) [sample_machine ''m1'' None None] 1 0) bob)) = [0] \<and>
   driver_createMachine idle_env 0 = Pending"
proof -
  let ?s = "sample_world (Some DummyDriver) [sample_machine ''m1'' None None] 1 0"
  let ?s1 = "?s\<lparr>Machine := [sample_machine ''m1'' (Some ''bob'') None],
                 effects := [ClaimQuery ''bob'']\<rparr>"
  let ?s2 = "?s1\<lparr>effects := [ClaimQuery ''bob'', DriverCreateMachine ''nanocloud-exec''],
                   promises := 1, awaitingMachines := [0]\<rparr>"
  have f: "findOne_user (Machine ?s) (id_user bob) = None"
    by (simp add: findOne_user_def sample_world_def sample_machine_def)
  have q: "Machine_query idle_env ?s (id_user bob) =
      (Inr [sample_machine ''m1'' (Some ''bob'') None], ?s1)"
    by (simp add: Machine_query_def sample_env_def idle_env_def sample_world_def
        sample_machine_def bob_def)
  have d: "driver_var ?s1 \<noteq> None" "driver_var ?s = Some DummyDriver"
    by (simp_all add: sample_world_def)
  have n: "nat (deficit ?s1) = 1"
    by (simp add: deficit_def count_free_def sample_world_def sample_config_def
        sample_machine_def)
  have v: "promises ?s1 = 0" "effects ?s1 = [ClaimQuery ''bob'']" "awaitingMachines ?s1 = []"
    "machinesName (ConfigService ?s1) = ''nanocloud-exec''"
    by (simp_all add: sample_world_def sample_config_def)
  have r: "updateMachinesPool idle_env ?s1 = (Pending, ?s2)"
    unfolding updateMachinesPool_spec [OF d(1)] n v
    by (simp add: Promise_all_def sample_env_def idle_env_def)
  have p: "[promises ?s1 ..< promises ?s2] = [0]" by (simp add: sample_world_def)
  have fin: "runFinally idle_env [0] ?s2 = ?s2"
    by (simp add: runFinally_def sample_env_def idle_env_def)
  have "getMachineForUser idle_env ?s bob =
      (Pending, runFinally idle_env [promises ?s1 ..< promises ?s2] ?s2)"
    by (simp add: getMachineForUser_def d(2) f q r)
  then have g: "getMachineForUser idle_env ?s bob = (Pending, ?s2)"
    unfolding p fin .
  show ?thesis unfolding g by (simp add: sample_env_def idle_env_def)
qed

text \<open>
  C6. With the driver in place, a user who owns a machine, the only one to carry the
  user's id, gets that machine from every call of \<open>getMachineForUser\<close>, and the call
  leaves the world as it was: no claim statement is sent, and a second call gives the
  same machine again.
\<close>

theorem existing_machine_returned:
  assumes "driver_var s \<noteq> None"
    and "m \<in> set (Machine s)" and "user m = Some (id_user u)"
    and "\<forall>m'\<in>set (Machine s). user m' = Some (id_user u) \<longrightarrow> m' = m"
  shows "getMachineForUser E s u = (Fulfilled m, s) \<and>
         getMachineForUser E (snd (getMachineForUser E s u)) u = (Fulfilled m, s) \<and>
         Machine (snd (getMachineForUser E s u)) = Machine s \<and>
         effects (snd (getMachineForUser E s u)) = effects s"
proof -
  have "findOne_user (Machine s) (id_user u) = Some m"
    unfolding findOne_user_def
    by (rule find_unique [where P = "\<lambda>m. user m = Some (id_user u)", OF assms(2-4)])
  then have "getMachineForUser E s u = (Fulfilled m, s)"
    using assms(1) by (simp add: getMachineForUser_def)
  then show ?thesis by simp
qed

theorem existing_machine_returned_witness:
  "getMachineForUser idle_env
      (sample_world (Some DummyDriver)
         [sample_machine ''m1'' (Some ''alice'') None, sample_machine ''m2'' None None] 2 0) alice =
     (Fulfilled (sample_machine ''m1'' (Some ''alice'') None),
      sample_world (Some DummyDriver)
         [sample_machine ''m1'' (Some ''alice'') None, sample_machine ''m2'' None None] 2 0)"
proof -
  let ?m = "sample_machine ''m1'' (Some ''alice'') None"
  let ?s = "sample_world (Some DummyDriver) [?m, sample_machine ''m2'' None None] 2 0"
  have h: "driver_var ?s \<noteq> None" "?m \<in> set (Machine ?s)" "user ?m = Some (id_user alice)"
    "\<forall>m'\<in>set (Machine ?s). user m' = Some (id_user alice) \<longrightarrow> m' = ?m"
    by (simp_all add: sample_world_def sample_machine_def alice_def)
  from existing_machine_returned [OF h, of idle_env] show ?thesis by simp
qed

text \<open>
  C7. Once \<^verbatim>\<open>_driver\<close> is set, \<open>initialize\<close> is rejected with
  \<open>DriverAlreadyInitialized\<close> and leaves the world as it was: no driver is constructed
  and no reconcile pass is run.
\<close>

theorem initialize_twice_rejected:
  assumes "driver_var s \<noteq> None"
  shows "initialize E s = (Rejected DriverAlreadyInitialized, s)"
  using assms by (simp add: initialize_def)

theorem initialize_twice_rejected_witness:
  "fst (initialize idle_env (sample_world None [] 2 0)) = Fulfilled () \<and>
   effects (snd (initialize idle_env (sample_world None [] 2 0))) =
     [DriverNew DummyDriver, DriverInitialize,
      DriverCreateMachine ''nanocloud-exec'', DriverCreateMachine ''nanocloud-exec''] \<and>
   initialize idle_env (snd (initialize idle_env (sample_world None [] 2 0))) =
     (Rejected DriverAlreadyInitialized, snd (initialize idle_env (sample_world None [] 2 0)))"
proof -
  let ?s0 = "sample_world None [] 2 0"
  let ?s1 = "?s0\<lparr>driver_var := Some DummyDriver, effects := [DriverNew DummyDriver, DriverInitialize]\<rparr>"
  have d: "driver_var ?s1 \<noteq> None" by simp
  have n: "nat (deficit ?s1) = 2"
    by (simp add: deficit_def count_free_def sample_world_def sample_config_def)
  have v: "promises ?s1 = 0" "effects ?s1 = [DriverNew DummyDriver, DriverInitialize]"
    "awaitingMachines ?s1 = []" "machinesName (ConfigService ?s1) = ''nanocloud-exec''"
    by (simp_all add: sample_world_def sample_config_def)
  have u: "[0 ..< 0 + 2] = [0, 1::nat]" by (simp add: upt_rec)
  have r: "snd (updateMachinesPool idle_env ?s1) =
      ?s1\<lparr>effects := [DriverNew DummyDriver, DriverInitialize,
                       DriverCreateMachine ''nanocloud-exec'', DriverCreateMachine ''nanocloud-exec''],
           promises := 2, awaitingMachines := [0, 1]\<rparr>"
    unfolding updateMachinesPool_spec [OF d] n v u by (simp add: numeral_2_eq_2)
  have i: "initialize idle_env ?s0 =
      (Fulfilled (),
       ?s1\<lparr>effects := [DriverNew DummyDriver, DriverInitialize,
                       DriverCreateMachine ''nanocloud-exec'', DriverCreateMachine ''nanocloud-exec''],
           promises := 2, awaitingMachines := [0, 1], initializing := Some (Fulfilled ())\<rparr>)"
  proof -
    have a: "driver_var ?s0 = None" "initializing ?s0 = None"
      "drivers (iaas (ConfigService ?s0)) = Some DummyDriver"
      "driver_initialize idle_env = Fulfilled ()" "effects ?s0 = []"
      by (simp_all add: sample_world_def sample_config_def drivers_def idle_env_def sample_env_def)
    obtain x y where xy: "updateMachinesPool idle_env ?s1 = (x, y)" by (cases "updateMachinesPool idle_env ?s1")
    with r have y: "y = ?s1\<lparr>effects := [DriverNew DummyDriver, DriverInitialize,
                       DriverCreateMachine ''nanocloud-exec'', DriverCreateMachine ''nanocloud-exec''],
           promises := 2, awaitingMachines := [0, 1]\<rparr>" by simp
    show ?thesis
      unfolding initialize_def a Let_def by (simp add: xy y)
  qed
  have k: "driver_var (snd (initialize idle_env ?s0)) \<noteq> None"
    unfolding i by simp
  from initialize_twice_rejected [OF k, of idle_env] show ?thesis
    unfolding i by simp
qed

end
